theory Spec2Isabelle
  imports Main "HOL-Library.Word"
begin

unbundle bit_operations_syntax

section \<open>JavaScript values and primitives used by the sources\<close>

text \<open>
  The extension is written in JavaScript (\<^verbatim>\<open>popup.js\<close>, and the background worker that
  repeats \<^verbatim>\<open>TOTPGenerator\<close>). Strings are lists of characters; only code units up to
  U+00FF are represented. Numbers are integers: fractions are not represented. The one
  place where the sources can produce \<^verbatim>\<open>NaN\<close> from integers (a remainder by zero) is kept
  as a value of its own.

  Two limits of the engine lie outside the definitions, and the theorems that depend on
  them carry them as hypotheses. A JavaScript number is a double: on the integers below
  \<open>2^53\<close> in absolute value (\<^verbatim>\<open>Number.isSafeInteger\<close>) the arithmetic of the sources is
  exact and is what the definitions compute; beyond, a quotient is rounded before
  \<^verbatim>\<open>Math.floor\<close> sees it, which the definitions do not follow. A string has at most
  \<open>max_string_length\<close> characters (\<open>2^29 - 24\<close> in Chrome's engine), and building a longer one
  throws a \<^verbatim>\<open>RangeError\<close>, which the definitions do not show.
\<close>

definition safe_integer :: "int \<Rightarrow> bool" where
  "safe_integer i = (\<bar>i\<bar> < 2 ^ 53)"

definition max_string_length :: nat where
  "max_string_length = 536870888"

type_synonym byte = "8 word"

datatype jsnum = Num int | NaN

text \<open>
  Every \<^verbatim>\<open>throw\<close> of the sources is a value. \<open>FailedToImport e\<close> is the error that
  \<^verbatim>\<open>importSecrets\<close> builds from the message of the error \<open>e\<close> it caught.
\<close>

datatype error =
    InvalidBase32Character
  | InvalidSecretKey
  | InvalidImportFormat
  | JsSyntaxError
  | JsTypeError
  | FailedToImport error

text \<open>
  \<^verbatim>\<open>s.padStart(n, c)\<close> for a one-character filler \<open>c\<close>, as long as neither \<open>n\<close> nor the
  length of \<open>s\<close> is above \<open>max_string_length\<close>. For a longer target the source throws.
\<close>

definition padStart :: "nat \<Rightarrow> char \<Rightarrow> string \<Rightarrow> string" where
  "padStart n c s = replicate (n - length s) c @ s"

definition digit_char :: "nat \<Rightarrow> char" where
  "digit_char d = char_of (of_char CHR ''0'' + d)"

text \<open>\<^verbatim>\<open>n.toString(radix)\<close> for a natural number and a radix of 2 or 10.\<close>

fun nat_toString :: "nat \<Rightarrow> nat \<Rightarrow> string" where
  "nat_toString radix n =
     (if radix < 2 \<or> n < radix then [digit_char n]
      else nat_toString radix (n div radix) @ [digit_char (n mod radix)])"

declare nat_toString.simps [simp del]

text \<open>\<^verbatim>\<open>i.toString()\<close> for an integer.\<close>

definition toString :: "int \<Rightarrow> string" where
  "toString i =
     (if i < 0 then CHR ''-'' # nat_toString 10 (nat (- i)) else nat_toString 10 (nat i))"

text \<open>
  \<^verbatim>\<open>parseInt(s, 2)\<close> on a string of the characters 0 and 1 (the only strings
  \<^verbatim>\<open>base32Decode\<close> passes to it).
\<close>

definition parseInt2 :: "string \<Rightarrow> nat" where
  "parseInt2 s = foldl (\<lambda>acc c. 2 * acc + (if c = CHR ''1'' then 1 else 0)) 0 s"

text \<open>
  The remainder operator \<^verbatim>\<open>a % b\<close> on integers with \<open>b \<noteq> 0\<close>: the result has the sign
  of the dividend.
\<close>

definition js_rem :: "int \<Rightarrow> int \<Rightarrow> int" where
  "js_rem a b = sgn a * (\<bar>a\<bar> mod \<bar>b\<bar>)"

text \<open>
  \<^verbatim>\<open>c.toUpperCase()\<close> for one character. Of the characters represented, the lower-case
  ASCII letters are the only ones whose upper case is a character of the Base32 alphabet,
  which is all that \<^verbatim>\<open>base32Decode\<close> asks of the result.
\<close>

definition toUpperCase :: "char \<Rightarrow> char" where
  "toUpperCase c =
     (if of_char CHR ''a'' \<le> (of_char c :: nat) \<and> (of_char c :: nat) \<le> of_char CHR ''z''
      then char_of ((of_char c :: nat) - 32) else c)"

text \<open>\<^verbatim>\<open>s.indexOf(c)\<close> for a one-character needle; \<open>None\<close> is the result \<open>-1\<close>.\<close>

fun indexOf :: "string \<Rightarrow> char \<Rightarrow> nat option" where
  "indexOf [] c = None"
| "indexOf (x # xs) c = (if x = c then Some 0 else map_option Suc (indexOf xs c))"

text \<open>
  Reading a \<^verbatim>\<open>Uint8Array\<close> at an index and using the result in a bitwise operation:
  past the end the read is \<^verbatim>\<open>undefined\<close>, which \<^verbatim>\<open>&\<close> takes as 0.
\<close>

definition byte_at :: "byte list \<Rightarrow> nat \<Rightarrow> byte" where
  "byte_at xs i = (if i < length xs then xs ! i else 0)"

section \<open>TOTPGenerator\<close>

definition base32Chars :: string where
  "base32Chars = ''ABCDEFGHIJKLMNOPQRSTUVWXYZ234567''"

text \<open>\<^verbatim>\<open>encoded.replace(/=+$/, '')\<close>: the run of \<open>=\<close> at the end of the string is removed.\<close>

definition strip_padding :: "string \<Rightarrow> string" where
  "strip_padding encoded = rev (dropWhile (\<lambda>c. c = CHR ''='') (rev encoded))"

text \<open>
  The first loop of \<^verbatim>\<open>base32Decode\<close>: \<open>bits\<close> is the string built so far, the list is
  what remains of \<open>encoded\<close>. A character outside the alphabet throws. The string of
  bits is five times as long as \<open>encoded\<close>: it fits a string as long as \<open>encoded\<close> has no
  more than a fifth of \<open>max_string_length\<close> characters.
\<close>

fun decode_bits :: "string \<Rightarrow> string \<Rightarrow> error + string" where
  "decode_bits bits [] = Inr bits"
| "decode_bits bits (c # cs) =
     (case indexOf base32Chars (toUpperCase c) of
        None \<Rightarrow> Inl InvalidBase32Character
      | Some val \<Rightarrow> decode_bits (bits @ padStart 5 CHR ''0'' (nat_toString 2 val)) cs)"

text \<open>
  The second loop: byte \<open>i\<close> is \<^verbatim>\<open>parseInt(bits.substr(i * 8, 8), 2)\<close>, for
  \<open>i\<close> below \<^verbatim>\<open>Math.floor(bits.length / 8)\<close>.
\<close>

definition bits_to_bytes :: "string \<Rightarrow> byte list" where
  "bits_to_bytes bits =
     map (\<lambda>i. of_nat (parseInt2 (take 8 (drop (i * 8) bits)))) [0 ..< length bits div 8]"

definition base32Decode :: "string \<Rightarrow> error + byte list" where
  "base32Decode encoded =
     (case decode_bits [] (strip_padding encoded) of
        Inl e \<Rightarrow> Inl e
      | Inr bits \<Rightarrow> Inr (bits_to_bytes bits))"

definition validateSecret :: "string \<Rightarrow> bool" where
  "validateSecret s = (case base32Decode s of Inl e \<Rightarrow> False | Inr bytes \<Rightarrow> True)"

text \<open>
  \<^verbatim>\<open>hmacSha1\<close> hands the key and the message to the platform's \<^verbatim>\<open>crypto.subtle\<close>, which
  is no code of this repository: it is a parameter of the model, \<open>None\<close> when the platform
  rejects the call (it does for a key of no bytes).
\<close>

type_synonym hmac = "byte list \<Rightarrow> byte list \<Rightarrow> byte list option"

text \<open>
  \<^verbatim>\<open>timestamp || Math.floor(Date.now() / 1000)\<close>: \<open>now\<close> is the clock's value in seconds,
  \<open>None\<close> is \<^verbatim>\<open>null\<close>. The number 0 is falsy.
\<close>

definition time_of :: "int \<Rightarrow> int option \<Rightarrow> int" where
  "time_of now timestamp =
     (case timestamp of None \<Rightarrow> now | Some t \<Rightarrow> if t = 0 then now else t)"

text \<open>
  \<^verbatim>\<open>Math.floor(time / period)\<close> as \<^verbatim>\<open>setUint32\<close> stores it: the number modulo \<open>2^32\<close>.
  A period of 0 makes the quotient infinite or \<^verbatim>\<open>NaN\<close>, which \<^verbatim>\<open>setUint32\<close> stores as 0.
  The division is a double's. For safe integers its floor is the floor of the exact
  quotient, computed here: the exact quotient of two integers misses the next integer by
  at least \<open>1 / period\<close>, more than half the distance between doubles of that size. For a
  time of \<open>2^53\<close> or more the double quotient can round up to an integer before the floor,
  and the source's counter is then not the one computed here.
\<close>

definition counter_of :: "int \<Rightarrow> int \<Rightarrow> 32 word" where
  "counter_of time period = (if period = 0 then 0 else word_of_int (time div period))"

text \<open>
  The eight bytes of \<^verbatim>\<open>counterBytes\<close>: a fresh \<^verbatim>\<open>ArrayBuffer(8)\<close> is all zero, and
  \<^verbatim>\<open>setUint32(4, counter, false)\<close> writes bytes 4 to 7, the most significant first.
\<close>

definition counterBytes :: "int \<Rightarrow> int \<Rightarrow> byte list" where
  "counterBytes time period =
     (let counter = counter_of time period in
      [0, 0, 0, 0,
       ucast (drop_bit 24 counter), ucast (drop_bit 16 counter),
       ucast (drop_bit 8 counter), ucast counter])"

text \<open>
  The truncation of the digest. The bitwise operators work on 32-bit signed integers;
  \<^verbatim>\<open>%\<close> then takes the signed value.
\<close>

definition truncate_hmac :: "byte list \<Rightarrow> 32 word" where
  "truncate_hmac hmac =
     (let offset = unat (byte_at hmac (length hmac - 1) AND 0xf) in
      push_bit 24 (ucast (byte_at hmac offset AND 0x7f)) OR
      push_bit 16 (ucast (byte_at hmac (offset + 1) AND 0xff)) OR
      push_bit 8 (ucast (byte_at hmac (offset + 2) AND 0xff)) OR
      ucast (byte_at hmac (offset + 3) AND 0xff))"

definition code_of :: "byte list \<Rightarrow> nat \<Rightarrow> int" where
  "code_of hmac digits = js_rem (sint (truncate_hmac hmac)) (10 ^ digits)"

text \<open>\<^verbatim>\<open>period - (time % period)\<close>; the remainder by 0 is \<^verbatim>\<open>NaN\<close>.\<close>

definition timeRemaining_of :: "int \<Rightarrow> int \<Rightarrow> jsnum" where
  "timeRemaining_of time period =
     (if period = 0 then NaN else Num (period - js_rem time period))"

text \<open>
  The result of \<^verbatim>\<open>generateTOTP\<close> in \<^verbatim>\<open>popup.js\<close>. Its third field, \<^verbatim>\<open>progress\<close>, is a
  floating-point percentage computed from the other two and is left out. The background
  worker's \<^verbatim>\<open>generateTOTP\<close> is the same code and returns the field \<open>code\<close> alone.
\<close>

record totp =
  code :: string
  timeRemaining :: jsnum

text \<open>
  \<^verbatim>\<open>generateTOTP(secret, timestamp, digits, period)\<close>. Whatever is thrown inside the
  \<^verbatim>\<open>try\<close> is replaced by the error \<^verbatim>\<open>Invalid secret key\<close>.
\<close>

definition generateTOTP ::
  "hmac \<Rightarrow> int \<Rightarrow> string \<Rightarrow> int option \<Rightarrow> nat \<Rightarrow> int \<Rightarrow> error + totp" where
  "generateTOTP hmacSha1 now secret timestamp digits period =
     (case base32Decode secret of
        Inl e \<Rightarrow> Inl InvalidSecretKey
      | Inr key \<Rightarrow>
          (let time = time_of now timestamp in
           case hmacSha1 key (counterBytes time period) of
             None \<Rightarrow> Inl InvalidSecretKey
           | Some hmac \<Rightarrow>
               Inr \<lparr>code = padStart digits CHR ''0'' (toString (code_of hmac digits)),
                    timeRemaining = timeRemaining_of time period\<rparr>))"

text \<open>
  \<^verbatim>\<open>crypto.subtle\<close> at the two inputs for which RFC 4226 (Appendix D) publishes the
  HMAC-SHA-1 value: the key is the ASCII string \<^verbatim>\<open>12345678901234567890\<close>, the message the
  counter 0 or 1. It stands for the platform in the evaluations below, and rejects every
  other call.
\<close>

definition rfc4226_key :: "byte list" where
  "rfc4226_key =
     [0x31, 0x32, 0x33, 0x34, 0x35, 0x36, 0x37, 0x38, 0x39, 0x30,
      0x31, 0x32, 0x33, 0x34, 0x35, 0x36, 0x37, 0x38, 0x39, 0x30]"

definition rfc4226_digest0 :: "byte list" where
  "rfc4226_digest0 =
     [0xcc, 0x93, 0xcf, 0x18, 0x50, 0x8d, 0x94, 0x93, 0x4c, 0x64,
      0xb6, 0x5d, 0x8b, 0xa7, 0x66, 0x7f, 0xb7, 0xcd, 0xe4, 0xb0]"

definition rfc4226_digest1 :: "byte list" where
  "rfc4226_digest1 =
     [0x75, 0xa4, 0x8a, 0x19, 0xd4, 0xcb, 0xe1, 0x00, 0x64, 0x4e,
      0x8a, 0xc1, 0x39, 0x7e, 0xea, 0x74, 0x7a, 0x2d, 0x33, 0xab]"

definition rfc4226_hmac :: hmac where
  "rfc4226_hmac key msg =
     (if key = rfc4226_key \<and> msg = [0, 0, 0, 0, 0, 0, 0, 0] then Some rfc4226_digest0
      else if key = rfc4226_key \<and> msg = [0, 0, 0, 0, 0, 0, 0, 1] then Some rfc4226_digest1
      else None)"

text \<open>The Base32 form of the RFC's key.\<close>

definition rfc4226_secret :: string where
  "rfc4226_secret = ''GEZDGNBVGY3TQOJQGEZDGNBVGY3TQOJQ''"

subsection \<open>What the specification says of the code engine\<close>

text \<open>
  The specification's message: the counter as an 8-byte big-endian unsigned integer.
\<close>

definition uint64_be :: "nat \<Rightarrow> byte list" where
  "uint64_be n = map (\<lambda>i. of_nat (n div 256 ^ (7 - i))) [0 ..< 8]"

text \<open>
  The specification's dynamic truncation: the offset is the low nibble of the last byte
  of the digest; of the four bytes from the offset on, the first loses its most
  significant bit; the four are read as a big-endian unsigned integer, which is reduced
  modulo \<open>10 ^ digits\<close>.
\<close>

definition dynamic_truncation :: "byte list \<Rightarrow> nat \<Rightarrow> nat" where
  "dynamic_truncation digest digits =
     (let offset = unat (last digest AND 0x0F);
          four = take 4 (drop offset digest);
          masked = (hd four AND 0x7F) # tl four
      in foldl (\<lambda>acc b. 256 * acc + unat b) 0 masked mod 10 ^ digits)"

text \<open>The number a string of decimal digits encodes.\<close>

definition nat_of_decimal :: "string \<Rightarrow> nat" where
  "nat_of_decimal s = foldl (\<lambda>acc c. 10 * acc + (of_char c - of_char CHR ''0'')) 0 s"

section \<open>JSON documents\<close>

text \<open>
  What \<^verbatim>\<open>JSON.parse\<close> returns. An object is the list of its properties, each key once.
  A property read that finds nothing is \<^verbatim>\<open>undefined\<close>, the \<open>None\<close> of \<open>json option\<close>.
\<close>

datatype json =
    JNull
  | JBool bool
  | JNum int
  | JStr string
  | JArr "json list"
  | JObj "(string \<times> json) list"

text \<open>The values that \<^verbatim>\<open>!v\<close> and \<^verbatim>\<open>v || d\<close> take for false.\<close>

fun truthy :: "json option \<Rightarrow> bool" where
  "truthy None = False"
| "truthy (Some JNull) = False"
| "truthy (Some (JBool b)) = b"
| "truthy (Some (JNum n)) = (n \<noteq> 0)"
| "truthy (Some (JStr s)) = (s \<noteq> [])"
| "truthy (Some (JArr xs)) = True"
| "truthy (Some (JObj kvs)) = True"

text \<open>\<^verbatim>\<open>v || d\<close>.\<close>

definition js_or :: "json option \<Rightarrow> json \<Rightarrow> json" where
  "js_or v d = (case v of None \<Rightarrow> d | Some x \<Rightarrow> if truthy (Some x) then x else d)"

text \<open>
  The property read \<^verbatim>\<open>v.k\<close>, for the keys the sources read (\<^verbatim>\<open>secrets\<close>, \<^verbatim>\<open>website\<close>,
  \<^verbatim>\<open>name\<close>, \<^verbatim>\<open>secret\<close>, \<^verbatim>\<open>issuer\<close>, \<^verbatim>\<open>digits\<close>, \<^verbatim>\<open>period\<close>): it throws a
  \<^verbatim>\<open>TypeError\<close> on \<^verbatim>\<open>null\<close>, finds the property of an object, and is \<^verbatim>\<open>undefined\<close> on a
  number, a string, a boolean or an array.
\<close>

fun get_prop :: "json \<Rightarrow> string \<Rightarrow> error + json option" where
  "get_prop JNull k = Inl JsTypeError"
| "get_prop (JObj kvs) k = Inr (map_of kvs k)"
| "get_prop v k = Inr None"

section \<open>StorageManager\<close>

text \<open>
  A stored secret. \<open>None\<close> in \<open>secret_id\<close>, \<open>createdAt\<close> and \<open>updatedAt\<close> is a property the
  object does not have; the timestamps are the strings \<^verbatim>\<open>toISOString\<close> returns. The
  fields that \<^verbatim>\<open>importSecrets\<close> copies from the document unchecked hold JSON values.
  \<open>website\<close> is the key under which \<^verbatim>\<open>chrome.storage.local\<close> keeps the secret, a string.
\<close>

record secret_rec =
  secret_id :: "string option"
  website :: string
  name :: json
  secret :: json
  issuer :: json
  digits :: json
  period :: json
  algorithm :: string
  createdAt :: "string option"
  updatedAt :: "string option"

text \<open>
  \<^verbatim>\<open>chrome.storage.local\<close>: under a website, the array of its secrets. A write is taken to
  succeed: the storage's quota is not represented.
\<close>

type_synonym storage = "string \<Rightarrow> secret_rec list option"

text \<open>
  The names of the members of \<^verbatim>\<open>Object.prototype\<close>. The object that
  \<^verbatim>\<open>chrome.storage.local.get\<close> returns is an ordinary one: read under one of these names
  it answers with the inherited member when it has no property of its own.
\<close>

definition object_prototype_members :: "string list" where
  "object_prototype_members =
     [''constructor'', ''__defineGetter__'', ''__defineSetter__'', ''hasOwnProperty'',
      ''__lookupGetter__'', ''__lookupSetter__'', ''isPrototypeOf'', ''propertyIsEnumerable'',
      ''toString'', ''valueOf'', ''__proto__'', ''toLocaleString'']"

text \<open>
  \<^verbatim>\<open>result[domain] || []\<close>: the array stored under the website; without one, the empty array,
  unless the website is the name of a member of \<^verbatim>\<open>Object.prototype\<close>: then the read gives
  that member, which is truthy and no array. \<open>None\<close> is such a value.
\<close>

definition getSecretsForDomain :: "storage \<Rightarrow> string \<Rightarrow> secret_rec list option" where
  "getSecretsForDomain st domain =
     (case st domain of
        Some secrets \<Rightarrow> Some secrets
      | None \<Rightarrow> if domain \<in> set object_prototype_members then None else Some [])"

text \<open>\<^verbatim>\<open>xs.findIndex(p)\<close>; \<open>None\<close> is the result \<open>-1\<close>.\<close>

fun findIndex :: "('a \<Rightarrow> bool) \<Rightarrow> 'a list \<Rightarrow> nat option" where
  "findIndex p [] = None"
| "findIndex p (x # xs) = (if p x then Some 0 else map_option Suc (findIndex p xs))"

text \<open>
  \<^verbatim>\<open>saveSecret(secret)\<close>. \<open>now1\<close> and \<open>now2\<close> are what the first and the second
  \<^verbatim>\<open>new Date().toISOString()\<close> of the call return (an update reads the clock once), and
  \<open>newId\<close> is what \<^verbatim>\<open>generateId()\<close> returns. The result is the storage the call leaves, or
  the error it throws: \<^verbatim>\<open>secrets.findIndex\<close> is no function when \<open>secrets\<close> is no array.
  \<^verbatim>\<open>s.id === secret.id\<close> also holds between two absent ids.
\<close>

definition saveSecret ::
  "string \<Rightarrow> string \<Rightarrow> string \<Rightarrow> storage \<Rightarrow> secret_rec \<Rightarrow> error + storage" where
  "saveSecret now1 now2 newId st s =
     (case getSecretsForDomain st (website s) of
        None \<Rightarrow> Inl JsTypeError
      | Some secrets \<Rightarrow>
          (case findIndex (\<lambda>x. secret_id x = secret_id s) secrets of
             Some existingIndex \<Rightarrow>
               Inr (st(website s \<mapsto> secrets[existingIndex := s\<lparr>updatedAt := Some now1\<rparr>]))
           | None \<Rightarrow>
               Inr (st(website s \<mapsto>
                 secrets @ [s\<lparr>secret_id := Some newId, createdAt := Some now1,
                              updatedAt := Some now2\<rparr>]))))"

text \<open>
  The object that \<^verbatim>\<open>importSecrets\<close> passes to \<^verbatim>\<open>saveSecret\<close> for an entry whose website is
  the string \<open>w\<close>.
\<close>

definition import_record :: "string \<Rightarrow> json \<Rightarrow> json \<Rightarrow> json option \<Rightarrow> json option \<Rightarrow>
    json option \<Rightarrow> secret_rec" where
  "import_record w n k i d p =
     \<lparr>secret_id = None, website = w, name = n, secret = k,
      issuer = js_or i (JStr []), digits = js_or d (JNum 6), period = js_or p (JNum 30),
      algorithm = ''SHA1'', createdAt = None, updatedAt = None\<rparr>"

text \<open>
  The loop of \<^verbatim>\<open>importSecrets\<close> over the entries that remain. \<open>j\<close> counts the calls of
  \<^verbatim>\<open>saveSecret\<close> made so far; \<open>clock j 0\<close> and \<open>clock j 1\<close> are the first and the second
  reading of the clock in call \<open>j\<close>, and \<open>ids j\<close> is the identifier generated in it.
  Reading a property of a \<^verbatim>\<open>null\<close> entry throws; so does \<^verbatim>\<open>chrome.storage.local.get\<close> on a
  key that is not a string; so can \<^verbatim>\<open>saveSecret\<close>. What was saved before an error stays
  saved: the result is the error, if any, and the storage.
\<close>

fun import_entries ::
  "(nat \<Rightarrow> nat \<Rightarrow> string) \<Rightarrow> (nat \<Rightarrow> string) \<Rightarrow> nat \<Rightarrow> storage \<Rightarrow> json list \<Rightarrow>
    error option \<times> storage" where
  "import_entries clock ids j st [] = (None, st)"
| "import_entries clock ids j st (JNull # es) = (Some JsTypeError, st)"
| "import_entries clock ids j st (JObj kvs # es) =
     (if \<not> truthy (map_of kvs ''website'') \<or> \<not> truthy (map_of kvs ''name'') \<or>
         \<not> truthy (map_of kvs ''secret'')
      then import_entries clock ids j st es
      else
        (case (map_of kvs ''website'', map_of kvs ''name'', map_of kvs ''secret'') of
           (Some (JStr w), Some n, Some k) \<Rightarrow>
             (case saveSecret (clock j 0) (clock j 1) (ids j) st
                     (import_record w n k (map_of kvs ''issuer'') (map_of kvs ''digits'')
                        (map_of kvs ''period'')) of
                Inl e \<Rightarrow> (Some e, st)
              | Inr st' \<Rightarrow> import_entries clock ids (Suc j) st' es)
         | _ \<Rightarrow> (Some JsTypeError, st)))"
| "import_entries clock ids j st (e # es) = import_entries clock ids j st es"

text \<open>
  \<^verbatim>\<open>importSecrets(jsonData)\<close>, taken up once \<^verbatim>\<open>JSON.parse\<close> has run: \<open>parsed\<close> is the value
  the parser returns, \<open>None\<close> when it throws. The function has no \<^verbatim>\<open>return\<close>: what a caller
  learns is whether it threw.
\<close>

definition importSecrets ::
  "(nat \<Rightarrow> nat \<Rightarrow> string) \<Rightarrow> (nat \<Rightarrow> string) \<Rightarrow> storage \<Rightarrow> json option \<Rightarrow>
    error option \<times> storage" where
  "importSecrets clock ids st parsed =
     (case parsed of
        None \<Rightarrow> (Some (FailedToImport JsSyntaxError), st)
      | Some data \<Rightarrow>
          (case get_prop data ''secrets'' of
             Inl e \<Rightarrow> (Some (FailedToImport e), st)
           | Inr (Some (JArr entries)) \<Rightarrow>
               (case import_entries clock ids 0 st entries of
                  (Some e, st') \<Rightarrow> (Some (FailedToImport e), st')
                | (None, st') \<Rightarrow> (None, st'))
           | Inr other \<Rightarrow> (Some (FailedToImport InvalidImportFormat), st)))"

section \<open>UIController\<close>

text \<open>
  The characters that \<^verbatim>\<open>trim\<close> and the pattern \<^verbatim>\<open>\s\<close> take for white space, among
  those represented: tab, line feed, vertical tab, form feed, carriage return, space and
  the no-break space.
\<close>

definition is_space :: "char \<Rightarrow> bool" where
  "is_space c = ((of_char c :: nat) \<in> {9, 10, 11, 12, 13, 32, 160})"

definition trim :: "string \<Rightarrow> string" where
  "trim s = rev (dropWhile is_space (rev (dropWhile is_space s)))"

text \<open>\<^verbatim>\<open>s.replace(/\s/g, '')\<close>.\<close>

definition remove_spaces :: "string \<Rightarrow> string" where
  "remove_spaces s = filter (\<lambda>c. \<not> is_space c) s"

text \<open>
  The values of the form's fields when it is submitted. The two selects hold decimal
  integers, which \<^verbatim>\<open>parseInt\<close> reads.
\<close>

record form =
  secretName :: string
  secretWebsite :: string
  secretKey :: string
  secretIssuer :: string
  secretDigits :: int
  secretPeriod :: int

text \<open>What the form shows after a submission: one of its three errors, or the main view.\<close>

datatype submit_result =
    RequiredFieldsMissing
  | InvalidSecretKeyFormat
  | FailedToSave
  | Saved

text \<open>
  \<^verbatim>\<open>handleFormSubmit\<close>: \<open>editingSecret\<close> is the secret being edited, \<open>None\<close> when the form
  adds one. The result is what the user is shown and the storage.
\<close>

definition handleFormSubmit ::
  "string \<Rightarrow> string \<Rightarrow> string \<Rightarrow> secret_rec option \<Rightarrow> form \<Rightarrow> storage \<Rightarrow>
    submit_result \<times> storage" where
  "handleFormSubmit now1 now2 newId editingSecret f st =
     (let w = trim (secretWebsite f);
          s = \<lparr>secret_id = None, website = w,
               name = JStr (if trim (secretName f) = [] then w else trim (secretName f)),
               secret = JStr (remove_spaces (trim (secretKey f))),
               issuer = JStr (trim (secretIssuer f)),
               digits = JNum (secretDigits f), period = JNum (secretPeriod f),
               algorithm = ''SHA1'', createdAt = None, updatedAt = None\<rparr>
      in if w = [] \<or> remove_spaces (trim (secretKey f)) = [] then (RequiredFieldsMissing, st)
         else if \<not> validateSecret (remove_spaces (trim (secretKey f)))
         then (InvalidSecretKeyFormat, st)
         else
           (case saveSecret now1 now2 newId st
                   (case editingSecret of None \<Rightarrow> s | Some e \<Rightarrow> s\<lparr>secret_id := secret_id e\<rparr>) of
              Inl err \<Rightarrow> (FailedToSave, st)
            | Inr st' \<Rightarrow> (Saved, st')))"

text \<open>
  A stored secret decodes when it is a string that \<^verbatim>\<open>base32Decode\<close> accepts; on a value
  that is no string \<^verbatim>\<open>base32Decode\<close> throws (it has no \<^verbatim>\<open>replace\<close>).
\<close>

definition decodable :: "json \<Rightarrow> bool" where
  "decodable v = (case v of JStr k \<Rightarrow> validateSecret k | _ \<Rightarrow> False)"

subsection \<open>What the specification says of the store and of an import\<close>

text \<open>The secrets stored under a website: the bucket of the website.\<close>

definition bucket :: "storage \<Rightarrow> string \<Rightarrow> secret_rec list" where
  "bucket st w = (case st w of None \<Rightarrow> [] | Some secrets \<Rightarrow> secrets)"

text \<open>
  The property read \<^verbatim>\<open>e.k\<close> on an entry that is not \<^verbatim>\<open>null\<close>.
\<close>

definition field :: "json \<Rightarrow> string \<Rightarrow> json option" where
  "field e k = (case e of JObj kvs \<Rightarrow> map_of kvs k | _ \<Rightarrow> None)"

text \<open>An entry survives when it misses none of \<^verbatim>\<open>website\<close>, \<^verbatim>\<open>name\<close> and \<^verbatim>\<open>secret\<close>.\<close>

definition survives :: "json \<Rightarrow> bool" where
  "survives e =
     (truthy (field e ''website'') \<and> truthy (field e ''name'') \<and> truthy (field e ''secret''))"

text \<open>
  The website of an entry when it is a string that names no member of
  \<^verbatim>\<open>Object.prototype\<close>.
\<close>

definition plain_website :: "json \<Rightarrow> bool" where
  "plain_website e =
     (case field e ''website'' of
        Some (JStr w) \<Rightarrow> w \<notin> set object_prototype_members
      | _ \<Rightarrow> False)"

text \<open>The secret that a surviving entry with a string for its website describes.\<close>

definition entry_record :: "json \<Rightarrow> secret_rec" where
  "entry_record e =
     import_record (case field e ''website'' of Some (JStr w) \<Rightarrow> w | _ \<Rightarrow> [])
       (js_or (field e ''name'') JNull) (js_or (field e ''secret'') JNull)
       (field e ''issuer'') (field e ''digits'') (field e ''period'')"

text \<open>A secret as the store creates it: with its identifier and both timestamps.\<close>

definition stamp :: "string \<Rightarrow> string \<Rightarrow> string \<Rightarrow> secret_rec \<Rightarrow> secret_rec" where
  "stamp now1 now2 newId s =
     s\<lparr>secret_id := Some newId, createdAt := Some now1, updatedAt := Some now2\<rparr>"

text \<open>
  The secrets created for a list of surviving entries, the first in call \<open>j\<close> of
  \<^verbatim>\<open>saveSecret\<close>.
\<close>

fun minted ::
  "(nat \<Rightarrow> nat \<Rightarrow> string) \<Rightarrow> (nat \<Rightarrow> string) \<Rightarrow> nat \<Rightarrow> json list \<Rightarrow> secret_rec list" where
  "minted clock ids j [] = []"
| "minted clock ids j (e # es) =
     stamp (clock j 0) (clock j 1) (ids j) (entry_record e) # minted clock ids (Suc j) es"

section \<open>Examples\<close>

text \<open>A stored secret, the storage that holds it alone, and a form that edits it.\<close>

definition stored_example :: secret_rec where
  "stored_example =
     \<lparr>secret_id = Some ''id0'', website = ''old.com'', name = JStr ''Mail'',
      secret = JStr ''JBSWY3DPEHPK3PXP'', issuer = JStr [], digits = JNum 6,
      period = JNum 30, algorithm = ''SHA1'', createdAt = Some ''t0'',
      updatedAt = Some ''t0''\<rparr>"

definition storage_example :: storage where
  "storage_example = [''old.com'' \<mapsto> [stored_example]]"

definition form_example :: form where
  "form_example =
     \<lparr>secretName = ''Mail 2'', secretWebsite = ''old.com'', secretKey = ''JBSWY3DPEHPK3PXP'',
      secretIssuer = [], secretDigits = 6, secretPeriod = 30\<rparr>"

text \<open>
  Three import documents. The first has three entries, the second of them without its
  secret key. The second has a \<^verbatim>\<open>null\<close> between two entries. The only entry of the third
  has a key that is no Base32.
\<close>

definition document_example :: json where
  "document_example =
     JObj [(''version'', JStr ''1.0''),
       (''secrets'', JArr
          [JObj [(''website'', JStr ''a.com''), (''name'', JStr ''A''),
                 (''secret'', JStr ''JBSWY3DPEHPK3PXP'')],
           JObj [(''website'', JStr ''a.com''), (''name'', JStr ''B'')],
           JObj [(''website'', JStr ''b.com''), (''name'', JStr ''C''),
                 (''secret'', JStr ''GEZDGNBVGY3TQOJQ''), (''digits'', JNum 8)]])]"

definition null_entry_document :: json where
  "null_entry_document =
     JObj [(''version'', JStr ''1.0''),
       (''secrets'', JArr
          [JObj [(''website'', JStr ''a.com''), (''name'', JStr ''A''),
                 (''secret'', JStr ''JBSWY3DPEHPK3PXP'')],
           JNull,
           JObj [(''website'', JStr ''b.com''), (''name'', JStr ''C''),
                 (''secret'', JStr ''GEZDGNBVGY3TQOJQ''), (''digits'', JNum 8)]])]"

definition undecodable_document :: json where
  "undecodable_document =
     JObj [(''secrets'', JArr
          [JObj [(''website'', JStr ''a.com''), (''name'', JStr ''A''),
                 (''secret'', JStr ''not base32!'')]])]"

section \<open>Properties of the primitives\<close>

lemma padStart_length: "length (padStart n c s) = max n (length s)"
  by (simp add: padStart_def)

lemma of_char_digit_char: "d < 10 \<Longrightarrow> (of_char (digit_char d) :: nat) = 48 + d"
  by (simp add: digit_char_def)

lemma nat_of_decimal_append:
  "nat_of_decimal (s @ [c]) = 10 * nat_of_decimal s + (of_char c - 48)"
  by (simp add: nat_of_decimal_def)

lemma nat_of_decimal_toString: "nat_of_decimal (nat_toString 10 n) = n"
proof (induction n rule: less_induct)
  case (less n)
  show ?case
  proof (cases "n < 10")
    case True
    then show ?thesis
      by (simp add: nat_toString.simps [of 10 n] nat_of_decimal_def of_char_digit_char)
  next
    case False
    then have "n div 10 < n" by simp
    with less False show ?thesis
      by (simp add: nat_toString.simps [of 10 n] nat_of_decimal_append of_char_digit_char)
  qed
qed

lemma nat_of_decimal_zeros: "nat_of_decimal (replicate k CHR ''0'' @ s) = nat_of_decimal s"
proof -
  have "foldl (\<lambda>acc c. 10 * acc + (of_char c - of_char CHR ''0'')) 0 (replicate k CHR ''0'') = (0::nat)"
    by (induction k) simp_all
  then show ?thesis by (simp add: nat_of_decimal_def)
qed

lemma length_nat_toString: "0 < d \<Longrightarrow> n < 10 ^ d \<Longrightarrow> length (nat_toString 10 n) \<le> d"
proof (induction n arbitrary: d rule: less_induct)
  case (less n)
  show ?case
  proof (cases "n < 10")
    case True
    with less.prems show ?thesis by (simp add: nat_toString.simps [of 10 n])
  next
    case False
    with less.prems obtain d' where d: "d = Suc d'" "0 < d'"
      by (cases d; cases "d - 1") auto
    from False have "n div 10 < n" by simp
    moreover have "n div 10 < 10 ^ d'" using less.prems d by (simp add: less_mult_imp_div_less mult.commute)
    ultimately have "length (nat_toString 10 (n div 10)) \<le> d'" using less.IH d by blast
    with False d show ?thesis by (simp add: nat_toString.simps [of 10 n])
  qed
qed

lemma js_rem_nonneg: "0 \<le> a \<Longrightarrow> 0 < b \<Longrightarrow> js_rem a b = a mod b"
  by (cases "a = 0") (simp_all add: js_rem_def)

lemma or_byte:
  fixes x d :: int
  assumes "0 \<le> d" "d < 256"
  shows "push_bit 8 x OR d = 256 * x + d"
proof -
  have "take_bit 8 d = d" using assms by (simp add: take_bit_int_eq_self)
  then have "push_bit 8 x OR d = concat_bit 8 d x"
    by (simp add: concat_bit_def or.commute)
  also have "\<dots> = take_bit 8 d + push_bit 8 x" by (rule concat_bit_eq)
  finally show ?thesis using \<open>take_bit 8 d = d\<close> by (simp add: push_bit_eq_mult)
qed

lemma uint_byte_bounds: "0 \<le> uint (b :: byte)" "uint (b :: byte) < 256"
  using uint_lt2p [of b] by simp_all

lemma uint_push_byte:
  assumes "k \<le> 24"
  shows "uint (push_bit k (ucast (b :: byte)) :: 32 word) = push_bit k (uint b)"
proof -
  have "uint (ucast b :: 32 word) = uint b" by (simp add: uint_up_ucast is_up)
  moreover have "push_bit k (uint b) < 2 ^ 32"
  proof -
    have "push_bit k (uint b) < push_bit k (2 ^ 8)"
      using uint_byte_bounds [of b] by (simp add: push_bit_eq_mult)
    also have "\<dots> = 2 ^ (k + 8)" by (simp add: push_bit_eq_mult power_add)
    also have "\<dots> \<le> (2::int) ^ 32" using assms by (intro power_increasing) simp_all
    finally show ?thesis .
  qed
  moreover have "0 \<le> push_bit k (uint b)" by simp
  ultimately show ?thesis
    by (simp add: unsigned_push_bit_eq take_bit_int_eq_self)
qed

lemma or4_bytes:
  fixes a b c d :: int
  assumes "0 \<le> a" "0 \<le> b" "b < 256" "0 \<le> c" "c < 256" "0 \<le> d" "d < 256"
  shows "push_bit 24 a OR push_bit 16 b OR push_bit 8 c OR d =
         16777216 * a + 65536 * b + 256 * c + d"
proof -
  have "push_bit 24 a OR push_bit 16 b OR push_bit 8 c OR d =
        push_bit 8 (push_bit 8 (push_bit 8 a OR b) OR c) OR d"
    by (simp add: push_bit_or push_bit_push_bit or.assoc)
  also have "\<dots> = 256 * (256 * (256 * a + b) + c) + d"
    using assms by (simp add: or_byte)
  finally show ?thesis by simp
qed

lemma byte_and_ff: "b AND 0xff = (b :: byte)"
proof -
  have "(0xff :: byte) = - 1" by simp
  then show ?thesis by (simp only: and.right_neutral)
qed

lemma uint_and_7f: "uint ((b :: byte) AND 0x7f) < 128"
proof -
  have "uint (b AND 0x7f) \<le> uint (0x7f :: byte)"
    by (rule word_and_le1 [THEN word_le_def [THEN iffD1]])
  then show ?thesis by simp
qed

lemma uint_four_bytes:
  fixes b0 b1 b2 b3 :: byte
  shows "uint (push_bit 24 (ucast (b0 AND 0x7f)) OR push_bit 16 (ucast (b1 AND 0xff)) OR
          push_bit 8 (ucast (b2 AND 0xff)) OR (ucast (b3 AND 0xff) :: 32 word)) =
         16777216 * uint (b0 AND 0x7f) + 65536 * uint b1 + 256 * uint b2 + uint b3"
proof -
  have u: "uint (ucast b :: 32 word) = uint b" for b :: byte
    by (simp add: uint_up_ucast is_up)
  show ?thesis
    using uint_push_byte [of 24 "b0 AND 0x7f"] uint_push_byte [of 16 b1] uint_push_byte [of 8 b2]
    by (simp add: byte_and_ff u uint_or or4_bytes uint_byte_bounds)
qed

lemma sint_four_bytes:
  fixes b0 b1 b2 b3 :: byte
  shows "sint (push_bit 24 (ucast (b0 AND 0x7f)) OR push_bit 16 (ucast (b1 AND 0xff)) OR
          push_bit 8 (ucast (b2 AND 0xff)) OR (ucast (b3 AND 0xff) :: 32 word)) =
         16777216 * uint (b0 AND 0x7f) + 65536 * uint b1 + 256 * uint b2 + uint b3"
    (is "sint ?w = ?v")
proof -
  have v: "uint ?w = ?v" by (rule uint_four_bytes)
  have "0 \<le> ?v" "?v < 2 ^ 31"
    using uint_and_7f [of b0] uint_byte_bounds [of b1] uint_byte_bounds [of b2]
      uint_byte_bounds [of b3] uint_byte_bounds [of "b0 AND 0x7f"] by simp_all
  then have "- (2 ^ 31) \<le> ?v" "?v < 2 ^ 31" by linarith+
  then have "signed_take_bit 31 ?v = ?v"
    by (rule signed_take_bit_int_eq_self)
  then show ?thesis by (simp only: sint_uint v) simp
qed


lemma unat_drop_bit_div: "unat (drop_bit k (w :: 32 word)) = unat w div 2 ^ k"
  unfolding unat_drop_bit_eq by (simp add: drop_bit_eq_div)

lemma ucast_byte: "(ucast (w :: 32 word) :: byte) = of_nat (unat w)"
proof -
  have "unat (ucast w :: byte) = unat w mod 256"
    by (simp only: unsigned_ucast_eq take_bit_eq_mod) simp
  then show ?thesis
    by (intro word_unat_eq_iff [THEN iffD2]) (simp add: unat_of_nat)
qed

lemma uint64_be_small:
  assumes "n < 2 ^ 32"
  shows "uint64_be n =
    [0, 0, 0, 0, of_nat (n div 2 ^ 24), of_nat (n div 2 ^ 16), of_nat (n div 2 ^ 8), of_nat n]"
proof -
  have "[0 ..< 8] = [0, 1, 2, 3, 4, 5, 6, 7::nat]" by (simp add: upt_rec)
  moreover have "n div 256 ^ 7 = 0" "n div 256 ^ 6 = 0" "n div 256 ^ 5 = 0" "n div 256 ^ 4 = 0"
    using assms by simp_all
  ultimately show ?thesis by (simp add: uint64_be_def)
qed

lemma counterBytes_word:
  fixes period :: int
  shows "counterBytes time period = uint64_be (unat (counter_of time period))"
proof -
  have "unat (counter_of time period) < 2 ^ 32"
    using unsigned_less [of "counter_of time period", where 'a = nat] by simp
  then show ?thesis
    unfolding counterBytes_def Let_def ucast_byte unat_drop_bit_div
    by (simp only: uint64_be_small)
qed

lemma unat_counter_of:
  fixes period :: int
  assumes "0 \<le> time" "0 < period"
  shows "unat (counter_of time period) = nat (time div period) mod 2 ^ 32"
proof -
  have "0 \<le> time div period" using assms by (simp add: pos_imp_zdiv_nonneg_iff)
  then have "(word_of_int (time div period) :: 32 word) = of_nat (nat (time div period))"
    by simp
  then show ?thesis using assms by (simp add: counter_of_def unat_of_nat del: of_nat_nat)
qed

lemma take4_drop:
  assumes "n + 4 \<le> length xs"
  shows "take 4 (drop n xs) = [xs ! n, xs ! (n + 1), xs ! (n + 2), xs ! (n + 3)]"
proof (rule nth_equalityI)
  show "length (take 4 (drop n xs)) = length [xs ! n, xs ! (n + 1), xs ! (n + 2), xs ! (n + 3)]"
    using assms by simp
next
  fix i assume "i < length (take 4 (drop n xs))"
  then have "i < 4" by simp
  then consider "i = 0" | "i = 1" | "i = 2" | "i = 3" by linarith
  then show "take 4 (drop n xs) ! i = [xs ! n, xs ! (n + 1), xs ! (n + 2), xs ! (n + 3)] ! i"
    using assms by cases (simp_all add: numeral_eq_Suc)
qed

lemma offset_bound: "unat ((b :: byte) AND 0xf) \<le> 15"
proof -
  have "unat (b AND 0xf) \<le> unat (0xf :: byte)"
    by (rule word_and_le1 [THEN word_le_nat_alt [THEN iffD1]])
  then show ?thesis by simp
qed

lemma code_of_dynamic_truncation:
  fixes digits :: nat
  assumes "20 \<le> length digest"
  shows "code_of digest digits = int (dynamic_truncation digest digits)"
proof -
  define n where "n = unat (last digest AND 0xf)"
  have ne: "digest \<noteq> []" using assms by auto
  have n: "n + 4 \<le> length digest" using offset_bound [of "last digest"] assms by (simp add: n_def)
  have last: "byte_at digest (length digest - 1) = last digest"
    using ne by (simp add: byte_at_def last_conv_nth)
  have at: "byte_at digest (n + i) = digest ! (n + i)" if "i < 4" for i
    using n that by (simp add: byte_at_def)
  have at0: "byte_at digest n = digest ! n" using at [of 0] by simp
  let ?v = "16777216 * uint (digest ! n AND 0x7f) + 65536 * uint (digest ! (n + 1)) +
            256 * uint (digest ! (n + 2)) + uint (digest ! (n + 3))"
  have s: "sint (truncate_hmac digest) = ?v"
    unfolding truncate_hmac_def Let_def last n_def [symmetric]
    by (simp only: at at0 sint_four_bytes)
  have "0 \<le> ?v" by simp
  then have c: "code_of digest digits = ?v mod 10 ^ digits"
    by (simp only: code_of_def s) (simp add: js_rem_nonneg)
  have "int (foldl (\<lambda>acc b. 256 * acc + unat b) 0
          [digest ! n AND 0x7f, digest ! (n + 1), digest ! (n + 2), digest ! (n + 3)]) = ?v"
    by simp
  then have "int (dynamic_truncation digest digits) = ?v mod 10 ^ digits"
    unfolding dynamic_truncation_def Let_def n_def [symmetric]
    by (simp only: take4_drop [OF n] list.sel zmod_int) simp
  with c show ?thesis by simp
qed

section \<open>Properties of \<^verbatim>\<open>generateTOTP\<close>, and its values at the RFC's vectors\<close>

lemma digit_char_simps:
  "digit_char 0 = CHR ''0''" "digit_char 1 = CHR ''1''" "digit_char 2 = CHR ''2''"
  "digit_char 3 = CHR ''3''" "digit_char 4 = CHR ''4''" "digit_char 5 = CHR ''5''"
  "digit_char 6 = CHR ''6''" "digit_char 7 = CHR ''7''" "digit_char 8 = CHR ''8''"
  "digit_char 9 = CHR ''9''"
  by (simp_all add: digit_char_def char_of_def bit_0)

lemma rfc4226_decode: "base32Decode rfc4226_secret = Inr rfc4226_key"
  by code_simp

lemma rfc4226_hmac_0: "rfc4226_hmac rfc4226_key [0, 0, 0, 0, 0, 0, 0, 0] = Some rfc4226_digest0"
  by (simp add: rfc4226_hmac_def)

lemma rfc4226_hmac_1: "rfc4226_hmac rfc4226_key [0, 0, 0, 0, 0, 0, 0, 1] = Some rfc4226_digest1"
  by (simp add: rfc4226_hmac_def)

lemma rfc4226_truncate:
  "truncate_hmac rfc4226_digest0 = 0x4c93cf18" "truncate_hmac rfc4226_digest1 = 0x41397eea"
  by (simp_all add: truncate_hmac_def rfc4226_digest0_def rfc4226_digest1_def byte_at_def)

lemma rfc4226_codes:
  "padStart 6 CHR ''0'' (toString (code_of rfc4226_digest0 6)) = ''755224''"
  "padStart 6 CHR ''0'' (toString (code_of rfc4226_digest1 6)) = ''287082''"
  "padStart 7 CHR ''0'' (toString (code_of rfc4226_digest1 7)) = ''4287082''"
  "padStart 8 CHR ''0'' (toString (code_of rfc4226_digest1 8)) = ''94287082''"
  by (simp_all add: code_of_def rfc4226_truncate js_rem_def toString_def nat_toString.simps
      digit_char_simps padStart_def)

lemma counterBytes_values:
  "counterBytes 1 30 = [0, 0, 0, 0, 0, 0, 0, 0]"
  "counterBytes 29 30 = [0, 0, 0, 0, 0, 0, 0, 0]"
  "counterBytes 30 30 = [0, 0, 0, 0, 0, 0, 0, 1]"
  "counterBytes 59 30 = [0, 0, 0, 0, 0, 0, 0, 1]"
  "counterBytes 59 45 = [0, 0, 0, 0, 0, 0, 0, 1]"
  "counterBytes 128849018880 30 = [0, 0, 0, 0, 0, 0, 0, 0]"
  by (simp_all add: counterBytes_def counter_of_def)

lemma timeRemaining_values:
  "timeRemaining_of 1 30 = Num 29" "timeRemaining_of 29 30 = Num 1"
  "timeRemaining_of 30 30 = Num 30" "timeRemaining_of 59 30 = Num 1"
  "timeRemaining_of 59 45 = Num 31"
  by (simp_all add: timeRemaining_of_def js_rem_def)

lemma time_of_values:
  "time_of now None = now" "time_of now (Some 0) = now" "time_of now (Some 59) = 59"
  "time_of now (Some 128849018880) = 128849018880"
  by (simp_all add: time_of_def)

lemma generateTOTP_Inr:
  fixes secret :: string and digits :: nat and period :: int
  assumes "base32Decode secret = Inr key"
    and "hmacSha1 key (counterBytes (time_of now timestamp) period) = Some digest"
  shows "generateTOTP hmacSha1 now secret timestamp digits period =
     Inr \<lparr>code = padStart digits CHR ''0'' (toString (code_of digest digits)),
          timeRemaining = timeRemaining_of (time_of now timestamp) period\<rparr>"
  using assms by (simp add: generateTOTP_def)

lemma rfc4226_totp_values:
  "generateTOTP rfc4226_hmac 1 rfc4226_secret (Some 0) 6 30 =
     Inr \<lparr>code = ''755224'', timeRemaining = Num 29\<rparr>"
  "generateTOTP rfc4226_hmac 29 rfc4226_secret (Some 0) 6 30 =
     Inr \<lparr>code = ''755224'', timeRemaining = Num 1\<rparr>"
  "generateTOTP rfc4226_hmac 30 rfc4226_secret (Some 0) 6 30 =
     Inr \<lparr>code = ''287082'', timeRemaining = Num 30\<rparr>"
  "generateTOTP rfc4226_hmac 0 rfc4226_secret (Some 59) 8 30 =
     Inr \<lparr>code = ''94287082'', timeRemaining = Num 1\<rparr>"
  "generateTOTP rfc4226_hmac 0 rfc4226_secret (Some 59) 7 30 =
     Inr \<lparr>code = ''4287082'', timeRemaining = Num 1\<rparr>"
  "generateTOTP rfc4226_hmac 0 rfc4226_secret (Some 59) 6 45 =
     Inr \<lparr>code = ''287082'', timeRemaining = Num 31\<rparr>"
  by (simp_all add: generateTOTP_Inr [OF rfc4226_decode] time_of_values counterBytes_values
      rfc4226_hmac_0 rfc4226_hmac_1 rfc4226_codes timeRemaining_values)

lemma sint_truncate_hmac_nonneg: "0 \<le> sint (truncate_hmac h)"
  unfolding truncate_hmac_def Let_def by (simp only: sint_four_bytes) simp

lemma code_of_range:
  fixes digits :: nat
  shows "0 \<le> code_of h digits" "code_of h digits < 10 ^ digits"
  by (simp_all add: code_of_def js_rem_nonneg sint_truncate_hmac_nonneg)

lemma length_code:
  fixes digits :: nat
  assumes "0 < digits"
  shows "length (padStart digits CHR ''0'' (toString (code_of h digits))) = digits"
proof -
  have "nat (code_of h digits) < 10 ^ digits"
    using code_of_range [of h digits] by (simp add: nat_less_iff)
  then have "length (nat_toString 10 (nat (code_of h digits))) \<le> digits"
    using assms by (rule length_nat_toString [rotated])
  then show ?thesis
    using code_of_range(1) [of h digits] by (simp add: padStart_length toString_def)
qed

text \<open>
  The empty secret decodes, to a key of no bytes: when \<^verbatim>\<open>generateTOTP\<close> fails on it, it is
  the platform's HMAC that rejected the key.
\<close>

lemma base32Decode_empty: "base32Decode [] = Inr []"
  by (simp add: base32Decode_def strip_padding_def bits_to_bytes_def)

lemma generateTOTP_empty_secret:
  fixes digits :: nat and period :: int
  assumes "hmacSha1 [] (counterBytes (time_of now timestamp) period) = None"
  shows "generateTOTP hmacSha1 now [] timestamp digits period = Inl InvalidSecretKey"
  using assms by (simp add: generateTOTP_def base32Decode_empty)

section \<open>The code engine: the claims\<close>

text \<open>
  C3 (as amended). Within the engine's limits (a time and a period that are safe integers,
  a secret of at most a fifth of \<open>max_string_length\<close> characters, at most
  \<open>max_string_length\<close> digits) \<^verbatim>\<open>generateTOTP\<close> either throws its one error,
  \<^verbatim>\<open>Invalid secret key\<close>, or returns a result; it returns a result exactly when
  \<^verbatim>\<open>base32Decode\<close> accepts the secret and the platform's HMAC answers the call; and a code
  it returns for a positive digit count has exactly that many characters. The digit count
  and the period are never compared with the supported sets: 7 digits and a period of 45
  are instances.
\<close>

theorem generateTOTP_single_failure:
  fixes secret :: string and digits :: nat and period :: int
  assumes "safe_integer (time_of now timestamp)" and "safe_integer period"
    and "5 * length secret \<le> max_string_length" and "digits \<le> max_string_length"
  shows "(generateTOTP hmacSha1 now secret timestamp digits period = Inl InvalidSecretKey \<or>
          (\<exists>r. generateTOTP hmacSha1 now secret timestamp digits period = Inr r))
       \<and> ((\<exists>r. generateTOTP hmacSha1 now secret timestamp digits period = Inr r) =
          (\<exists>key digest. base32Decode secret = Inr key \<and>
             hmacSha1 key (counterBytes (time_of now timestamp) period) = Some digest))
       \<and> (\<forall>r. generateTOTP hmacSha1 now secret timestamp digits period = Inr r \<longrightarrow>
             0 < digits \<longrightarrow> length (code r) = digits)"
proof (cases "base32Decode secret")
  case (Inl e)
  then show ?thesis by (simp add: generateTOTP_def)
next
  case (Inr key)
  show ?thesis
  proof (cases "hmacSha1 key (counterBytes (time_of now timestamp) period)")
    case None
    with Inr show ?thesis by (simp add: generateTOTP_def)
  next
    case (Some digest)
    with Inr show ?thesis by (simp add: generateTOTP_Inr length_code)
  qed
qed

text \<open>
  C3, an instance: the RFC's secret at time 59 with 7 digits gets a code of 7 characters,
  and with a period of 45 it gets a code as well.
\<close>

theorem generateTOTP_single_failure_witness:
  "(\<exists>r. generateTOTP rfc4226_hmac 0 rfc4226_secret (Some 59) 7 30 = Inr r \<and> length (code r) = 7)
   \<and> (\<exists>r. generateTOTP rfc4226_hmac 0 rfc4226_secret (Some 59) 6 45 = Inr r \<and>
         length (code r) = 6)"
proof -
  have s: "safe_integer (time_of 0 (Some 59))" "safe_integer 30" "safe_integer 45"
    by (simp_all add: safe_integer_def time_of_def)
  have l: "5 * length rfc4226_secret \<le> max_string_length"
    by (simp add: rfc4226_secret_def max_string_length_def)
  have d: "7 \<le> max_string_length" "6 \<le> max_string_length"
    by (simp_all add: max_string_length_def)
  from generateTOTP_single_failure [OF s(1) s(2) l d(1), of rfc4226_hmac]
    generateTOTP_single_failure [OF s(1) s(3) l d(2), of rfc4226_hmac]
    rfc4226_totp_values(5,6)
  show ?thesis by simp
qed

text \<open>
  C3 as stated fails: with a decodable secret, 7 digits are answered with a code of 7
  characters and a period of 45 with a code and 31 seconds, not with a failure.
\<close>

theorem generateTOTP_unsupported_parameters_counterexample:
  "base32Decode rfc4226_secret = Inr rfc4226_key
   \<and> generateTOTP rfc4226_hmac 0 rfc4226_secret (Some 59) 7 30 =
       Inr \<lparr>code = ''4287082'', timeRemaining = Num 1\<rparr>
   \<and> generateTOTP rfc4226_hmac 0 rfc4226_secret (Some 59) 6 45 =
       Inr \<lparr>code = ''287082'', timeRemaining = Num 31\<rparr>"
  by (simp add: rfc4226_decode rfc4226_totp_values)

text \<open>
  C4. Given the digest that the HMAC returns (20 bytes or more), the code that
  \<^verbatim>\<open>generateTOTP\<close> returns is the specification's dynamic truncation of the digest, in
  decimal and padded on the left with zeros: it has exactly \<open>digits\<close> characters and reads
  as that number. It holds for every positive digit count, 6 and 8 among them.
\<close>

theorem generateTOTP_dynamic_truncation:
  fixes secret :: string and digits :: nat and period :: int
  assumes "20 \<le> length digest" and "0 < digits"
    and "base32Decode secret = Inr key"
    and "hmacSha1 key (counterBytes (time_of now timestamp) period) = Some digest"
  shows "\<exists>c tr. generateTOTP hmacSha1 now secret timestamp digits period =
            Inr \<lparr>code = c, timeRemaining = tr\<rparr>
          \<and> c = padStart digits CHR ''0'' (nat_toString 10 (dynamic_truncation digest digits))
          \<and> length c = digits
          \<and> nat_of_decimal c = dynamic_truncation digest digits"
proof -
  let ?c = "padStart digits CHR ''0'' (toString (code_of digest digits))"
  have c: "code_of digest digits = int (dynamic_truncation digest digits)"
    using assms(1) by (rule code_of_dynamic_truncation)
  then have 1: "?c = padStart digits CHR ''0'' (nat_toString 10 (dynamic_truncation digest digits))"
    by (simp add: toString_def)
  have 2: "length ?c = digits" using assms(2) by (rule length_code)
  have 3: "nat_of_decimal ?c = dynamic_truncation digest digits"
    unfolding 1 by (simp add: padStart_def nat_of_decimal_zeros nat_of_decimal_toString)
  show ?thesis
    using generateTOTP_Inr [of secret key hmacSha1 now timestamp period digest digits]
      assms(3,4) 1 2 3 by simp
qed

text \<open>
  C4, an instance: the RFC's digest for the counter 1 and 8 digits give \<open>94287082\<close>.
\<close>

theorem generateTOTP_dynamic_truncation_witness:
  "\<exists>c tr. generateTOTP rfc4226_hmac 0 rfc4226_secret (Some 59) 8 30 =
            Inr \<lparr>code = c, timeRemaining = tr\<rparr>
          \<and> c = padStart 8 CHR ''0'' (nat_toString 10 (dynamic_truncation rfc4226_digest1 8))
          \<and> length c = 8
          \<and> nat_of_decimal c = dynamic_truncation rfc4226_digest1 8"
proof -
  have "20 \<le> length rfc4226_digest1" by (simp add: rfc4226_digest1_def)
  moreover have "rfc4226_hmac rfc4226_key (counterBytes (time_of 0 (Some 59)) 30) =
      Some rfc4226_digest1"
    by (simp add: time_of_values counterBytes_values rfc4226_hmac_1)
  ultimately show ?thesis
    using generateTOTP_dynamic_truncation [of rfc4226_digest1 8 rfc4226_secret rfc4226_key
        rfc4226_hmac 0 "Some 59" 30] rfc4226_decode
    by simp
qed

text \<open>
  C5 (as amended). For every integer timestamp \<open>t\<close> with \<open>1 \<le> t < 2^53\<close> and every positive
  period below \<open>2^53\<close> (30 and 60 among them), the HMAC message is the 8-byte big-endian
  serialization of \<open>floor(t / period)\<close> reduced modulo \<open>2^32\<close> (four zero bytes, then the four
  bytes of that number), and hence of the counter \<open>floor(t / period)\<close> itself whenever the
  counter is below \<open>2^32\<close>. That message is what \<^verbatim>\<open>generateTOTP\<close> hands to the HMAC, for a
  decodable secret of at most a fifth of \<open>max_string_length\<close> characters and at most
  \<open>max_string_length\<close> digits.
\<close>

theorem generateTOTP_message:
  fixes secret :: string and digits :: nat and period :: int
  assumes "1 \<le> t" and "t < 2 ^ 53" and "0 < period" and "period < 2 ^ 53"
    and "base32Decode secret = Inr key"
    and "5 * length secret \<le> max_string_length" and "digits \<le> max_string_length"
  shows "counterBytes (time_of now (Some t)) period = uint64_be (nat (t div period) mod 2 ^ 32)
       \<and> (t div period < 2 ^ 32 \<longrightarrow>
            counterBytes (time_of now (Some t)) period = uint64_be (nat (t div period)))
       \<and> generateTOTP hmacSha1 now secret (Some t) digits period =
           (case hmacSha1 key (uint64_be (nat (t div period) mod 2 ^ 32)) of
              None \<Rightarrow> Inl InvalidSecretKey
            | Some hmac \<Rightarrow>
                Inr \<lparr>code = padStart digits CHR ''0'' (toString (code_of hmac digits)),
                     timeRemaining = timeRemaining_of t period\<rparr>)"
proof -
  have t: "time_of now (Some t) = t" using assms(1) by (simp add: time_of_def)
  have m: "counterBytes t period = uint64_be (nat (t div period) mod 2 ^ 32)"
    using assms(1,3) by (simp add: counterBytes_word unat_counter_of)
  have "nat (t div period) mod 2 ^ 32 = nat (t div period)" if "t div period < 2 ^ 32"
    using that by (simp add: nat_less_iff)
  with m have s: "t div period < 2 ^ 32 \<longrightarrow> counterBytes t period = uint64_be (nat (t div period))"
    by simp
  have "generateTOTP hmacSha1 now secret (Some t) digits period =
           (case hmacSha1 key (counterBytes t period) of
              None \<Rightarrow> Inl InvalidSecretKey
            | Some hmac \<Rightarrow>
                Inr \<lparr>code = padStart digits CHR ''0'' (toString (code_of hmac digits)),
                     timeRemaining = timeRemaining_of t period\<rparr>)"
    using assms(5) by (simp add: generateTOTP_def t)
  with m s t show ?thesis by simp
qed

text \<open>
  C5, an instance: at time 59 with a period of 30 the message is the serialization of 1.
\<close>

theorem generateTOTP_message_witness:
  "counterBytes (time_of 0 (Some 59)) 30 = uint64_be 1
   \<and> generateTOTP rfc4226_hmac 0 rfc4226_secret (Some 59) 8 30 =
       (case rfc4226_hmac rfc4226_key (uint64_be 1) of
          None \<Rightarrow> Inl InvalidSecretKey
        | Some hmac \<Rightarrow>
            Inr \<lparr>code = padStart 8 CHR ''0'' (toString (code_of hmac 8)),
                 timeRemaining = timeRemaining_of 59 30\<rparr>)"
proof -
  have l: "5 * length rfc4226_secret \<le> max_string_length" "8 \<le> max_string_length"
    by (simp_all add: rfc4226_secret_def max_string_length_def)
  from generateTOTP_message [of 59 30 rfc4226_secret rfc4226_key 8 0 rfc4226_hmac, OF _ _ _ _
      rfc4226_decode l]
  show ?thesis by simp
qed

text \<open>
  C5 as stated fails. At \<open>t = 30 * 2^32\<close> with a period of 30 the counter is \<open>2^32\<close>, whose
  serialization has a 1 in its fourth byte; the message the code builds is all zero. At
  \<open>t = 0\<close> the counter is not that of 0 but that of the clock: with the clock at 59 the
  message is the serialization of 1.
\<close>

theorem generateTOTP_message_counterexample:
  "counterBytes (time_of 0 (Some 128849018880)) 30 = [0, 0, 0, 0, 0, 0, 0, 0]
   \<and> uint64_be (nat (128849018880 div 30)) = [0, 0, 0, 1, 0, 0, 0, 0]
   \<and> counterBytes (time_of 59 (Some 0)) 30 = [0, 0, 0, 0, 0, 0, 0, 1]
   \<and> uint64_be (nat (0 div 30)) = [0, 0, 0, 0, 0, 0, 0, 0]"
  by (simp add: time_of_def counterBytes_values uint64_be_def upt_rec)




text \<open>
  C10. A timestamp of 0 is taken for an omitted one: the call returns what it returns
  without a timestamp, which is the result for the clock's time. With the RFC's secret
  the timestamp 0 gives one code when the clock stands at 29 and another when it stands
  at 30.
\<close>

theorem generateTOTP_timestamp_zero:
  fixes secret :: string and digits :: nat and period :: int
  shows "generateTOTP hmacSha1 now secret (Some 0) digits period =
           generateTOTP hmacSha1 now secret None digits period
       \<and> generateTOTP hmacSha1 now secret (Some 0) digits period =
           generateTOTP hmacSha1 now secret (Some now) digits period
       \<and> generateTOTP rfc4226_hmac 29 rfc4226_secret (Some 0) 6 30 =
           Inr \<lparr>code = ''755224'', timeRemaining = Num 1\<rparr>
       \<and> generateTOTP rfc4226_hmac 30 rfc4226_secret (Some 0) 6 30 =
           Inr \<lparr>code = ''287082'', timeRemaining = Num 30\<rparr>"
proof -
  have a: "time_of now (Some 0) = time_of now None" by (simp add: time_of_def)
  have b: "time_of now (Some 0) = time_of now (Some now)" by (simp add: time_of_def)
  have 1: "generateTOTP hmacSha1 now secret (Some 0) digits period =
           generateTOTP hmacSha1 now secret None digits period"
    unfolding generateTOTP_def a ..
  have 2: "generateTOTP hmacSha1 now secret (Some 0) digits period =
           generateTOTP hmacSha1 now secret (Some now) digits period"
    unfolding generateTOTP_def b ..
  from 1 2 rfc4226_totp_values(2,3) show ?thesis by blast
qed

section \<open>Properties of the store\<close>

lemma findIndex_None: "(findIndex p xs = None) = (\<forall>x \<in> set xs. \<not> p x)"
  by (induction xs) auto

lemma findIndex_Some:
  "findIndex p xs = Some i \<Longrightarrow> i < length xs \<and> p (xs ! i) \<and> (\<forall>j < i. \<not> p (xs ! j))"
proof (induction xs arbitrary: i)
  case Nil
  then show ?case by simp
next
  case (Cons x xs)
  show ?case
  proof (cases "p x")
    case True
    with Cons.prems show ?thesis by simp
  next
    case False
    with Cons.prems obtain k where k: "findIndex p xs = Some k" "i = Suc k" by auto
    from Cons.IH [OF k(1)] False k(2) show ?thesis
      by (auto simp: nth_Cons split: nat.splits)
  qed
qed

lemma findIndex_exists: "x \<in> set xs \<Longrightarrow> p x \<Longrightarrow> \<exists>i. findIndex p xs = Some i"
  using findIndex_None [of p xs] by (cases "findIndex p xs") auto

lemma getSecretsForDomain_plain:
  "w \<notin> set object_prototype_members \<Longrightarrow> getSecretsForDomain st w = Some (bucket st w)"
  by (simp add: getSecretsForDomain_def bucket_def split: option.splits)

lemma getSecretsForDomain_stored:
  "st w = Some secrets \<Longrightarrow> getSecretsForDomain st w = Some (bucket st w)"
  by (simp add: getSecretsForDomain_def bucket_def)

lemma bucket_upd: "bucket (st(w \<mapsto> xs)) v = (if v = w then xs else bucket st v)"
  by (simp add: bucket_def)

lemma saveSecret_new:
  assumes "website s \<notin> set object_prototype_members"
    and "\<forall>x \<in> set (bucket st (website s)). secret_id x \<noteq> secret_id s"
  shows "saveSecret now1 now2 newId st s =
     Inr (st(website s \<mapsto> bucket st (website s) @ [stamp now1 now2 newId s]))"
proof -
  have "findIndex (\<lambda>x. secret_id x = secret_id s) (bucket st (website s)) = None"
    using assms(2) by (simp add: findIndex_None)
  then show ?thesis
    by (simp add: saveSecret_def getSecretsForDomain_plain [OF assms(1)] stamp_def)
qed

lemma saveSecret_existing:
  assumes "getSecretsForDomain st (website s) = Some secrets"
    and "findIndex (\<lambda>x. secret_id x = secret_id s) secrets = Some i"
  shows "saveSecret now1 now2 newId st s =
     Inr (st(website s \<mapsto> secrets[i := s\<lparr>updatedAt := Some now1\<rparr>]))"
  using assms by (simp add: saveSecret_def)

text \<open>
  Under a website that is the name of a member of \<^verbatim>\<open>Object.prototype\<close> and has no bucket
  yet, \<^verbatim>\<open>saveSecret\<close> throws and stores nothing.
\<close>

lemma saveSecret_prototype_member:
  assumes "website s \<in> set object_prototype_members" and "st (website s) = None"
  shows "saveSecret now1 now2 newId st s = Inl JsTypeError"
  using assms by (simp add: saveSecret_def getSecretsForDomain_def)

lemma saveSecret_other_bucket:
  "saveSecret now1 now2 newId st s = Inr st' \<Longrightarrow> w \<noteq> website s \<Longrightarrow> st' w = st w"
  by (auto simp: saveSecret_def split: option.splits)



section \<open>The store: the claims\<close>







text \<open>
  An edit in place. When a record of the bucket of the secret's website has the identifier
  of the secret to save, \<^verbatim>\<open>saveSecret\<close> replaces the first such record by the secret with
  \<open>updatedAt\<close> set to the clock's reading; the other records of the bucket and the other
  buckets stay.
\<close>

lemma saveSecret_edit:
  assumes "x \<in> set (bucket st (website s))" and "secret_id x = secret_id s"
  shows "\<exists>i < length (bucket st (website s)).
           secret_id (bucket st (website s) ! i) = secret_id s
         \<and> (\<forall>j < i. secret_id (bucket st (website s) ! j) \<noteq> secret_id s)
         \<and> saveSecret now1 now2 newId st s =
             Inr (st(website s \<mapsto> (bucket st (website s))[i := s\<lparr>updatedAt := Some now1\<rparr>]))"
proof -
  let ?b = "bucket st (website s)"
  from assms(1) obtain secrets where st: "st (website s) = Some secrets"
    by (cases "st (website s)") (auto simp: bucket_def)
  then have g: "getSecretsForDomain st (website s) = Some ?b"
    by (rule getSecretsForDomain_stored)
  obtain i where i: "findIndex (\<lambda>y. secret_id y = secret_id s) ?b = Some i"
    using findIndex_exists [of x ?b "\<lambda>y. secret_id y = secret_id s"] assms by auto
  from findIndex_Some [OF i] saveSecret_existing [OF g i, of now1 now2 newId]
  show ?thesis by (intro exI [of _ i]) simp
qed

lemma form_example_key:
  "trim (secretWebsite form_example) = ''old.com''"
  "trim (secretName form_example) = ''Mail 2''"
  "trim (secretIssuer form_example) = []"
  "remove_spaces (trim (secretKey form_example)) = ''JBSWY3DPEHPK3PXP''"
  by (simp_all add: form_example_def trim_def remove_spaces_def is_space_def)

lemma example_key_valid: "validateSecret ''JBSWY3DPEHPK3PXP''"
  by code_simp

text \<open>
  Every edit that the form saves in place leaves the record without \<open>createdAt\<close>: the
  object that \<^verbatim>\<open>handleFormSubmit\<close> builds has the identifier of the edited secret and no
  \<open>createdAt\<close>, and \<^verbatim>\<open>saveSecret\<close> stores that object.
\<close>

lemma handleFormSubmit_edit_drops_createdAt:
  assumes "handleFormSubmit now1 now2 newId (Some e) f st = (Saved, st')"
    and "x \<in> set (bucket st (trim (secretWebsite f)))" and "secret_id x = secret_id e"
  shows "\<exists>i < length (bucket st (trim (secretWebsite f))).
           secret_id (bucket st (trim (secretWebsite f)) ! i) = secret_id e
         \<and> secret_id (bucket st' (trim (secretWebsite f)) ! i) = secret_id e
         \<and> createdAt (bucket st' (trim (secretWebsite f)) ! i) = None
         \<and> updatedAt (bucket st' (trim (secretWebsite f)) ! i) = Some now1"
proof -
  let ?w = "trim (secretWebsite f)"
  define s where "s = \<lparr>secret_id = secret_id e, website = ?w,
               name = JStr (if trim (secretName f) = [] then ?w else trim (secretName f)),
               secret = JStr (remove_spaces (trim (secretKey f))),
               issuer = JStr (trim (secretIssuer f)),
               digits = JNum (secretDigits f), period = JNum (secretPeriod f),
               algorithm = ''SHA1'', createdAt = None, updatedAt = None\<rparr>"
  have w: "website s = ?w" and c: "createdAt s = None" and d: "secret_id s = secret_id e"
    by (simp_all add: s_def)
  from assms(1) have sv: "saveSecret now1 now2 newId st s = Inr st'"
    by (auto simp: handleFormSubmit_def Let_def s_def split: if_splits sum.splits)
  from assms(2,3) have "x \<in> set (bucket st (website s))" "secret_id x = secret_id s"
    by (simp_all add: w d)
  from saveSecret_edit [OF this, of now1 now2 newId] sv
  obtain i where i: "i < length (bucket st ?w)" "secret_id (bucket st ?w ! i) = secret_id e"
    and st': "st' = st(?w \<mapsto> (bucket st ?w)[i := s\<lparr>updatedAt := Some now1\<rparr>])"
    by (auto simp: w d)
  show ?thesis
    using i by (intro exI [of _ i]) (simp add: st' bucket_upd c d)
qed

section \<open>The form and the import: where the code departs from the claims\<close>

text \<open>
  C8, where the code departs from it: the stored example, created at \<open>t0\<close>, is edited in the
  form with its website unchanged. The edit is saved in place, under the same identifier
  and with \<open>updatedAt\<close> refreshed, and the stored record has no \<open>createdAt\<close> any more.
\<close>

theorem handleFormSubmit_edit_loses_createdAt:
  "handleFormSubmit ''t1'' ''t2'' ''id1'' (Some stored_example) form_example storage_example =
     (Saved, [''old.com'' \<mapsto>
        [\<lparr>secret_id = Some ''id0'', website = ''old.com'', name = JStr ''Mail 2'',
          secret = JStr ''JBSWY3DPEHPK3PXP'', issuer = JStr [], digits = JNum 6,
          period = JNum 30, algorithm = ''SHA1'', createdAt = None,
          updatedAt = Some ''t1''\<rparr>]])
   \<and> storage_example ''old.com'' = Some [stored_example]
   \<and> createdAt stored_example = Some ''t0''"
  by (simp add: handleFormSubmit_def form_example_key example_key_valid Let_def saveSecret_def
      getSecretsForDomain_def)
    (simp add: form_example_def stored_example_def storage_example_def)

text \<open>
  C6, where the code departs from it: in the second example document a \<^verbatim>\<open>null\<close> stands
  between two entries. It is an entry that misses \<^verbatim>\<open>website\<close>, \<^verbatim>\<open>name\<close> and \<^verbatim>\<open>secret\<close>, and
  the top-level shape of the document is right; yet the import fails, with a
  \<^verbatim>\<open>TypeError\<close>, after it has saved the first entry, and the third entry is not imported.
\<close>

theorem importSecrets_null_entry_fails:
  "importSecrets clock ids Map.empty (Some null_entry_document) =
     (Some (FailedToImport JsTypeError), [''a.com'' \<mapsto>
        [\<lparr>secret_id = Some (ids 0), website = ''a.com'', name = JStr ''A'',
          secret = JStr ''JBSWY3DPEHPK3PXP'', issuer = JStr [], digits = JNum 6,
          period = JNum 30, algorithm = ''SHA1'', createdAt = Some (clock 0 0),
          updatedAt = Some (clock 0 1)\<rparr>]])
   \<and> \<not> survives JNull"
  by (simp add: importSecrets_def null_entry_document_def saveSecret_def
      getSecretsForDomain_def object_prototype_members_def import_record_def js_or_def
      survives_def field_def)

text \<open>
  C2, where the code departs from it: the import of a document whose one entry has the
  secret key \<^verbatim>\<open>not base32!\<close> does not fail and stores the entry, although \<^verbatim>\<open>base32Decode\<close>
  throws on that key.
\<close>

theorem importSecrets_persists_undecodable:
  "importSecrets clock ids Map.empty (Some undecodable_document) =
     (None, [''a.com'' \<mapsto>
        [\<lparr>secret_id = Some (ids 0), website = ''a.com'', name = JStr ''A'',
          secret = JStr ''not base32!'', issuer = JStr [], digits = JNum 6,
          period = JNum 30, algorithm = ''SHA1'', createdAt = Some (clock 0 0),
          updatedAt = Some (clock 0 1)\<rparr>]])
   \<and> base32Decode ''not base32!'' = Inl InvalidBase32Character
   \<and> \<not> decodable (JStr ''not base32!'')"
proof -
  have d: "base32Decode ''not base32!'' = Inl InvalidBase32Character" by code_simp
  then have "\<not> decodable (JStr ''not base32!'')" by (simp add: decodable_def validateSecret_def)
  moreover have "importSecrets clock ids Map.empty (Some undecodable_document) =
     (None, [''a.com'' \<mapsto>
        [\<lparr>secret_id = Some (ids 0), website = ''a.com'', name = JStr ''A'',
          secret = JStr ''not base32!'', issuer = JStr [], digits = JNum 6,
          period = JNum 30, algorithm = ''SHA1'', createdAt = Some (clock 0 0),
          updatedAt = Some (clock 0 1)\<rparr>]])"
    by (simp add: importSecrets_def undecodable_document_def saveSecret_def
        getSecretsForDomain_def object_prototype_members_def import_record_def js_or_def)
  ultimately show ?thesis using d by simp
qed

text \<open>
  The form, the other way into the store, saves a secret only when its key decodes.
\<close>

lemma handleFormSubmit_validates:
  assumes "handleFormSubmit now1 now2 newId editingSecret f st = (Saved, st')"
  shows "\<exists>s. saveSecret now1 now2 newId st s = Inr st' \<and> decodable (secret s) \<and> website s \<noteq> []"
  using assms
  by (auto simp: handleFormSubmit_def Let_def decodable_def
      split: if_splits option.splits sum.splits)

section \<open>What the import does with a document that has no such entry\<close>

lemma truthy_Some: "truthy v \<Longrightarrow> \<exists>x. v = Some x"
  by (cases v) simp_all

lemma js_or_truthy: "truthy (Some x) \<Longrightarrow> js_or (Some x) d = x"
  by (simp add: js_or_def)

lemma stamp_sel:
  "website (stamp now1 now2 newId s) = website s"
  "secret_id (stamp now1 now2 newId s) = Some newId"
  by (simp_all add: stamp_def)

lemma entry_record_sel: "secret_id (entry_record e) = None"
  by (simp add: entry_record_def import_record_def)

lemma bucket_append:
  "website n = v \<Longrightarrow>
   bucket (st(v \<mapsto> bucket st v @ [n])) w = bucket st w @ filter (\<lambda>r. website r = w) [n]"
  by (auto simp: bucket_upd)

lemma not_survives_skipped:
  assumes "e \<noteq> JNull" and "\<not> survives e"
  shows "import_entries clock ids j st (e # es) = import_entries clock ids j st es"
  using assms by (cases e) (auto simp: survives_def field_def)

lemma survives_saved:
  assumes "survives e" and "plain_website e"
  shows "import_entries clock ids j st (e # es) =
     (case saveSecret (clock j 0) (clock j 1) (ids j) st (entry_record e) of
        Inl err \<Rightarrow> (Some err, st)
      | Inr st' \<Rightarrow> import_entries clock ids (Suc j) st' es)"
    and "website (entry_record e) \<notin> set object_prototype_members"
proof -
  from assms(1) obtain kvs where e: "e = JObj kvs"
    by (cases e) (simp_all add: survives_def field_def)
  from assms(1) e have t: "truthy (map_of kvs ''website'')" "truthy (map_of kvs ''name'')"
    "truthy (map_of kvs ''secret'')"
    by (simp_all add: survives_def field_def)
  from assms(2) e obtain w where w: "map_of kvs ''website'' = Some (JStr w)"
    and p: "w \<notin> set object_prototype_members"
    by (auto simp: plain_website_def field_def split: option.splits json.splits)
  from t(2) obtain n where n: "map_of kvs ''name'' = Some n" by (auto dest: truthy_Some)
  from t(3) obtain k where k: "map_of kvs ''secret'' = Some k" by (auto dest: truthy_Some)
  have r: "entry_record e =
      import_record w n k (map_of kvs ''issuer'') (map_of kvs ''digits'') (map_of kvs ''period'')"
    using t by (simp add: entry_record_def e field_def w n k js_or_truthy)
  show "import_entries clock ids j st (e # es) =
     (case saveSecret (clock j 0) (clock j 1) (ids j) st (entry_record e) of
        Inl err \<Rightarrow> (Some err, st)
      | Inr st' \<Rightarrow> import_entries clock ids (Suc j) st' es)"
    using t by (simp add: r [unfolded e] e w n k)
  show "website (entry_record e) \<notin> set object_prototype_members"
    using p by (simp add: r import_record_def)
qed

text \<open>
  When no entry is \<^verbatim>\<open>null\<close>, the website of every surviving entry is a string that names
  no member of \<^verbatim>\<open>Object.prototype\<close>, and no stored secret lacks its identifier, the loop
  does not fail, and every bucket gets at its end, in the order of the document, the
  secrets created for the surviving entries of its website.
\<close>

lemma import_entries_saves:
  assumes "\<forall>e \<in> set es. e \<noteq> JNull \<and> (survives e \<longrightarrow> plain_website e)"
    and "\<forall>w. \<forall>x \<in> set (bucket st w). secret_id x \<noteq> None"
  shows "fst (import_entries clock ids j st es) = None \<and>
     (\<forall>w. bucket (snd (import_entries clock ids j st es)) w =
        bucket st w @ filter (\<lambda>r. website r = w) (minted clock ids j (filter survives es)))"
  using assms
proof (induction es arbitrary: j st)
  case Nil
  then show ?case by simp
next
  case (Cons e es)
  from Cons.prems(1) have e: "e \<noteq> JNull" "survives e \<longrightarrow> plain_website e"
    and es: "\<forall>e \<in> set es. e \<noteq> JNull \<and> (survives e \<longrightarrow> plain_website e)"
    by simp_all
  show ?case
  proof (cases "survives e")
    case False
    with Cons.IH [OF es Cons.prems(2)] e(1) show ?thesis
      by (simp add: not_survives_skipped)
  next
    case True
    let ?s = "entry_record e"
    let ?n = "stamp (clock j 0) (clock j 1) (ids j) ?s"
    let ?st = "st(website ?s \<mapsto> bucket st (website ?s) @ [?n])"
    from True e(2) have p: "plain_website e" by simp
    have "\<forall>x \<in> set (bucket st (website ?s)). secret_id x \<noteq> secret_id ?s"
      using Cons.prems(2) by (simp add: entry_record_sel)
    with survives_saved(2) [OF True p]
    have sv: "saveSecret (clock j 0) (clock j 1) (ids j) st ?s = Inr ?st"
      by (rule saveSecret_new)
    have step: "import_entries clock ids j st (e # es) = import_entries clock ids (Suc j) ?st es"
      by (simp only: survives_saved(1) [OF True p] sv sum.case)
    have b: "bucket ?st w = bucket st w @ filter (\<lambda>r. website r = w) [?n]" for w
      by (rule bucket_append) (simp only: stamp_sel)
    have inv: "\<forall>w. \<forall>x \<in> set (bucket ?st w). secret_id x \<noteq> None"
    proof (intro allI ballI)
      fix w x assume "x \<in> set (bucket ?st w)"
      then have "x \<in> set (bucket st w) \<or> x = ?n"
        unfolding b by (auto split: if_splits)
      then show "secret_id x \<noteq> None"
        using Cons.prems(2) by (auto simp only: stamp_sel)
    qed
    from Cons.IH [OF es inv, of "Suc j"]
    have ih: "fst (import_entries clock ids (Suc j) ?st es) = None"
      and ihb: "bucket (snd (import_entries clock ids (Suc j) ?st es)) w =
        bucket ?st w @ filter (\<lambda>r. website r = w) (minted clock ids (Suc j) (filter survives es))"
      for w
      by blast+
    have m: "minted clock ids j (filter survives (e # es)) =
        ?n # minted clock ids (Suc j) (filter survives es)"
      using True by simp
    show ?thesis
      unfolding step m using ih by (simp only: ihb b) simp
  qed
qed

text \<open>
  The first example document, three entries of which the second lacks its secret key:
  the import into the empty store does not fail and leaves two secrets.
\<close>

lemma importSecrets_document_example:
  "importSecrets clock ids Map.empty (Some document_example) =
     (None, [''a.com'' \<mapsto>
        [\<lparr>secret_id = Some (ids 0), website = ''a.com'', name = JStr ''A'',
          secret = JStr ''JBSWY3DPEHPK3PXP'', issuer = JStr [], digits = JNum 6,
          period = JNum 30, algorithm = ''SHA1'', createdAt = Some (clock 0 0),
          updatedAt = Some (clock 0 1)\<rparr>],
       ''b.com'' \<mapsto>
        [\<lparr>secret_id = Some (ids 1), website = ''b.com'', name = JStr ''C'',
          secret = JStr ''GEZDGNBVGY3TQOJQ'', issuer = JStr [], digits = JNum 8,
          period = JNum 30, algorithm = ''SHA1'', createdAt = Some (clock 1 0),
          updatedAt = Some (clock 1 1)\<rparr>]])"
  by (simp add: importSecrets_def document_example_def saveSecret_def
      getSecretsForDomain_def object_prototype_members_def import_record_def js_or_def)

end
